theory Spec2Isabelle
  imports Main
begin

section \<open>Go values shared by the examples\<close>

text \<open>
  A Go \<open>error\<close> is an interface value; the examples only build errors with
  \<open>fmt.Errorf\<close> and only compare them with \<open>nil\<close>. An error is modelled by its
  message, and a value of type \<open>error\<close> by \<open>error option\<close>, \<open>None\<close> being \<open>nil\<close>.

  Every implementer of an interface may have effects (printing, network calls, a
  counter of its own). The effects are made explicit by state passing: a method takes
  the world \<open>'w\<close> and returns its result with the new world.
\<close>

type_synonym error = string

text \<open>
  \<open>strings.Join(elems, sep)\<close> of the Go standard library: the elements in order,
  \<open>sep\<close> between each two of them; the empty string for no element.
\<close>

fun Join :: "string list \<Rightarrow> string \<Rightarrow> string" where
  "Join [] sep = []"
| "Join [x] sep = x"
| "Join (x # y # ys) sep = x @ sep @ Join (y # ys) sep"

text \<open>
  \<open>strings.ToUpper\<close> of the Go standard library, on ASCII input: the letters
  \<open>a\<close> to \<open>z\<close> are mapped to \<open>A\<close> to \<open>Z\<close>, every other byte is kept.
  (The library also maps letters beyond ASCII; those are outside this model.)
\<close>

definition upper_byte :: "char \<Rightarrow> char" where
  "upper_byte c =
     (let n = (of_char c :: nat) in if 97 \<le> n \<and> n \<le> 122 then char_of (n - 32) else c)"

definition ToUpper :: "string \<Rightarrow> string" where
  "ToUpper s = map upper_byte s"

section \<open>examples/publisher/main.go\<close>

text \<open>
  \<open>type Publisher interface { Publish(msg string) error }\<close>: an implementer is
  the function its \<open>Publish\<close> method computes.
\<close>

type_synonym 'w Publisher = "string \<Rightarrow> 'w \<Rightarrow> error option \<times> 'w"

text \<open>
  \<open>type MockPublisher struct { PublishFn func(msg string) error }\<close> and its method
  \<open>Publish\<close>, which calls the field. (Every \<open>MockPublisher\<close> of the file is built
  with the field set, so the call of a nil function is not modelled.)
\<close>

record 'w MockPublisher =
  PublishFn :: "string \<Rightarrow> 'w \<Rightarrow> error option \<times> 'w"

definition Publish :: "'w MockPublisher \<Rightarrow> 'w Publisher" where
  "Publish p msg = PublishFn p msg"

text \<open>The two mocks of \<open>main\<close>: \<open>mp\<close> sends nowhere, \<open>errp\<close> always fails.\<close>

definition mp :: "'w MockPublisher" where
  "mp = \<lparr>PublishFn = (\<lambda>msg w. (None, w))\<rparr>"

definition errp :: "'w MockPublisher" where
  "errp = \<lparr>PublishFn = (\<lambda>msg w. (Some (''failed to send msg: '' @ msg), w))\<rparr>"

text \<open>\<open>TransformPublisher(p, tfn)\<close>: transform the message, then send it along.\<close>

definition TransformPublisher :: "'w Publisher \<Rightarrow> (string \<Rightarrow> string) \<Rightarrow> 'w MockPublisher" where
  "TransformPublisher p tfn = \<lparr>PublishFn = (\<lambda>msg. p (tfn msg))\<rparr>"

text \<open>
  \<open>MultiPublisher(ps...)\<close>: the \<open>for _, p := range ps\<close> loop of the closure, which
  returns the first error it meets and \<open>nil\<close> after the last publisher.
\<close>

fun MultiPublisher_range :: "'w Publisher list \<Rightarrow> string \<Rightarrow> 'w \<Rightarrow> error option \<times> 'w" where
  "MultiPublisher_range [] msg w = (None, w)"
| "MultiPublisher_range (p # ps) msg w =
     (case p msg w of
        (Some err, w') \<Rightarrow> (Some err, w')
      | (None, w') \<Rightarrow> MultiPublisher_range ps msg w')"

definition MultiPublisher :: "'w Publisher list \<Rightarrow> 'w MockPublisher" where
  "MultiPublisher ps = \<lparr>PublishFn = MultiPublisher_range ps\<rparr>"

text \<open>
  \<open>BatchPublisher(p, batchSize)\<close>. The closure captures the slice \<open>msgs\<close>, which
  lives as long as the decorator: it is the first component of the decorator's world,
  the world of the inner publisher being the second. The closure appends the message,
  and when \<open>len(msgs) == batchSize\<close> publishes \<open>strings.Join(msgs, ",")\<close> and returns
  the inner result; otherwise it returns \<open>nil\<close>. \<open>msgs\<close> is assigned nowhere else.
  \<open>batchSize\<close> is a Go \<open>int\<close>; it is only compared with a length, so it is an
  \<open>int\<close> here.
\<close>

definition BatchPublisher_PublishFn ::
  "'w Publisher \<Rightarrow> int \<Rightarrow> (string list \<times> 'w) Publisher" where
  "BatchPublisher_PublishFn p batchSize msg =
     (\<lambda>(msgs, w).
        let msgs' = msgs @ [msg] in
        if int (length msgs') = batchSize then
          (let batchMsg = Join msgs' '','' in
           case p batchMsg w of (err, w') \<Rightarrow> (err, (msgs', w')))
        else (None, (msgs', w)))"

text \<open>
  The constructor allocates the empty slice: from the world of the inner publisher it
  gives the decorator and the decorator's world.
\<close>

definition BatchPublisher ::
  "'w Publisher \<Rightarrow> int \<Rightarrow> 'w \<Rightarrow> (string list \<times> 'w) MockPublisher \<times> (string list \<times> 'w)" where
  "BatchPublisher p batchSize w = (\<lparr>PublishFn = BatchPublisher_PublishFn p batchSize\<rparr>, ([], w))"

section \<open>examples/doer/main.go\<close>

text \<open>
  \<open>type HTTPClient interface { Do(req *http.Request) (*http.Response, error) }\<close>.
  \<open>'req\<close> is the request pointer and \<open>'res\<close> the response a non-nil pointer leads
  to; the decorator below inspects neither. Both results are kept, since Go lets an
  implementer return any combination of them.
\<close>

type_synonym ('req, 'res, 'w) HTTPClient = "'req \<Rightarrow> 'w \<Rightarrow> ('res option \<times> error option) \<times> 'w"

record ('req, 'res, 'w) MockHTTPClient =
  DoFn :: "'req \<Rightarrow> 'w \<Rightarrow> ('res option \<times> error option) \<times> 'w"

definition Do :: "('req, 'res, 'w) MockHTTPClient \<Rightarrow> ('req, 'res, 'w) HTTPClient" where
  "Do c req = DoFn c req"

text \<open>
  \<open>RetryHTTPClient(c, retries)\<close>: the loop \<open>for i := 0; i < retries; i++\<close> with the
  variables \<open>res\<close> and \<open>err\<close> declared before it (both \<open>nil\<close>). A failed attempt
  continues with the next \<open>i\<close>; a successful one returns \<open>res, nil\<close>; after the loop
  the closure returns \<open>nil, err\<close>.
\<close>

function RetryHTTPClient_for ::
  "('req, 'res, 'w) HTTPClient \<Rightarrow> int \<Rightarrow> 'req \<Rightarrow> int \<Rightarrow> 'res option \<Rightarrow> error option \<Rightarrow> 'w
     \<Rightarrow> ('res option \<times> error option) \<times> 'w" where
  "RetryHTTPClient_for c retries req i res err w =
     (if i < retries then
        (case c req w of
           ((res', err'), w') \<Rightarrow>
             if err' \<noteq> None then RetryHTTPClient_for c retries req (i + 1) res' err' w'
             else ((res', None), w'))
      else ((None, err), w))"
  by pat_completeness auto
termination
  by (relation "measure (\<lambda>(c, retries, req, i, res, err, w). nat (retries - i))") auto

declare RetryHTTPClient_for.simps [simp del]

definition RetryHTTPClient ::
  "('req, 'res, 'w) HTTPClient \<Rightarrow> int \<Rightarrow> ('req, 'res, 'w) MockHTTPClient" where
  "RetryHTTPClient c retries =
     \<lparr>DoFn = (\<lambda>req w. RetryHTTPClient_for c retries req 0 None None w)\<rparr>"

section \<open>Observing the calls of an inner implementer\<close>

text \<open>
  To state which inner calls a decorator makes, an inner implementer is wrapped in a
  mock that records each call it receives (who was called, with what, and what it
  answered) in a log kept in the world, and otherwise behaves as the implementer.
\<close>

type_synonym Call = "nat \<times> string \<times> error option"

definition spy :: "nat \<Rightarrow> 'w Publisher \<Rightarrow> (Call list \<times> 'w) Publisher" where
  "spy i p msg =
     (\<lambda>(log, w). case p msg w of (err, w') \<Rightarrow> (err, (log @ [(i, msg, err)], w')))"

text \<open>The publishers of a sequence, each recording under its position.\<close>

fun spies_from :: "nat \<Rightarrow> 'w Publisher list \<Rightarrow> (Call list \<times> 'w) Publisher list" where
  "spies_from n [] = []"
| "spies_from n (p # ps) = spy n p # spies_from (Suc n) ps"

type_synonym ('req, 'res) Attempt = "'req \<times> 'res option \<times> error option"

definition spyDo ::
  "('req, 'res, 'w) HTTPClient \<Rightarrow> ('req, 'res, ('req, 'res) Attempt list \<times> 'w) HTTPClient" where
  "spyDo c req =
     (\<lambda>(log, w). case c req w of
        ((res, err), w') \<Rightarrow> ((res, err), (log @ [(req, res, err)], w')))"

text \<open>A caller that makes one \<open>Publish\<close> call per message, in order, and keeps the results.\<close>

fun Publish_each :: "'w Publisher \<Rightarrow> string list \<Rightarrow> 'w \<Rightarrow> error option list \<times> 'w" where
  "Publish_each P [] w = ([], w)"
| "Publish_each P (m # ms) w =
     (case P m w of (err, w') \<Rightarrow>
        (case Publish_each P ms w' of (errs, w'') \<Rightarrow> (err # errs, w'')))"

text \<open>
  An inner client for examples: its world counts the calls it has received; the first
  \<open>n\<close> calls fail, each with its own error, every later call succeeds.
\<close>

definition flaky :: "nat \<Rightarrow> (string, string, nat) HTTPClient" where
  "flaky n req k =
     (if k < n then ((None, Some (''attempt failed'' @ replicate (Suc k) CHR ''!'')), Suc k)
      else ((Some (''response to '' @ req), None), Suc k))"

section \<open>Facts about the library functions, the mocks and the caller\<close>

lemma ToUpper_hello: "ToUpper ''hello'' = ''HELLO''"
  by code_simp

lemma Publish_each_append:
  "Publish_each P (xs @ ys) w =
     (case Publish_each P xs w of (es, w') \<Rightarrow>
        (case Publish_each P ys w' of (fs, w'') \<Rightarrow> (es @ fs, w'')))"
  by (induction xs arbitrary: w) (auto split: prod.splits)

lemma Publish_mock: "Publish \<lparr>PublishFn = f\<rparr> = f"
  by (rule ext) (simp add: Publish_def)

lemma Do_mock: "Do \<lparr>DoFn = f\<rparr> = f"
  by (rule ext) (simp add: Do_def)

text \<open>What a recording implementer does with one call.\<close>

lemma spy_call: "spy i p msg (log, w) = (fst (p msg w), (log @ [(i, msg, fst (p msg w))], snd (p msg w)))"
  by (simp add: spy_def split: prod.splits)

lemma spyDo_call:
  "spyDo c req (log, w) =
     ((fst (fst (c req w)), snd (fst (c req w))),
      (log @ [(req, fst (fst (c req w)), snd (fst (c req w)))], snd (c req w)))"
  by (simp add: spyDo_def split: prod.splits)

section \<open>TransformPublisher\<close>

text \<open>
  C6. For every inner publisher \<open>p\<close>, transform \<open>tfn\<close> and message \<open>msg\<close>,
  \<open>Publish\<close> of \<open>TransformPublisher(p, tfn)\<close> is one call of \<open>p.Publish\<close> with
  \<open>tfn(msg)\<close>: it has that call's result and effect, and a recording inner publisher
  logs exactly one call, whose message is \<open>tfn(msg)\<close>. With \<open>ToUpper\<close> as the
  transform and the input \<open>hello\<close>, the inner publisher receives \<open>HELLO\<close>.
\<close>

theorem TransformPublisher_delegates_once:
  "Publish (TransformPublisher p tfn) msg w = p (tfn msg) w
   \<and> Publish (TransformPublisher (spy 0 p) tfn) msg (log, w) =
       (fst (p (tfn msg) w), (log @ [(0, tfn msg, fst (p (tfn msg) w))], snd (p (tfn msg) w)))
   \<and> snd (Publish (TransformPublisher (spy 0 p) ToUpper) ''hello'' ([], w)) =
       ([(0, ''HELLO'', fst (p ''HELLO'' w))], snd (p ''HELLO'' w))"
  by (simp add: Publish_def TransformPublisher_def spy_def ToUpper_hello split: prod.splits)

text \<open>
  C7. With the identity as the transform, \<open>Publish\<close> of the decorator is \<open>p.Publish\<close>:
  same result and effect for every \<open>p\<close>, and a recording inner publisher logs the same
  call as when it is called directly.
\<close>

theorem TransformPublisher_identity:
  "Publish (TransformPublisher p (\<lambda>msg. msg)) msg w = p msg w
   \<and> Publish (TransformPublisher (spy 0 p) (\<lambda>msg. msg)) msg (log, w) = spy 0 p msg (log, w)"
  by (simp add: Publish_def TransformPublisher_def)

section \<open>MultiPublisher\<close>

text \<open>
  C10. A \<open>MultiPublisher\<close> over no publisher returns \<open>nil\<close> for every message and
  leaves the world as it was: the loop body never runs, so nothing is invoked.
\<close>

theorem MultiPublisher_empty:
  "Publish (MultiPublisher []) msg w = (None, w)"
  by (simp add: Publish_def MultiPublisher_def)

text \<open>
  The loop over recording publishers, from any position \<open>n\<close> and any log: the
  calls it adds are those of the publishers \<open>n\<close>, \<open>n + 1\<close>, ... in this order, all
  with the message; all of them but possibly the last returned \<open>nil\<close>; the result is
  \<open>nil\<close> only when every publisher was called, and an error only when it is what the
  last call returned. Recording changes neither the result nor the inner world.
\<close>

lemma MultiPublisher_range_spied:
  "MultiPublisher_range (spies_from n ps) msg (log, w) = (r, (log', w')) \<Longrightarrow>
   \<exists>new. log' = log @ new \<and> length new \<le> length ps \<and> map fst new = [n..<n + length new]
     \<and> (\<forall>c\<in>set new. fst (snd c) = msg)
     \<and> (\<forall>c\<in>set (butlast new). snd (snd c) = None)
     \<and> (r = None \<longrightarrow> length new = length ps \<and> (\<forall>c\<in>set new. snd (snd c) = None))
     \<and> (\<forall>e. r = Some e \<longrightarrow> new \<noteq> [] \<and> snd (snd (last new)) = Some e)
     \<and> MultiPublisher_range ps msg w = (r, w')"
proof (induction ps arbitrary: n log w)
  case Nil
  then show ?case by simp
next
  case (Cons p ps)
  obtain e w1 where p: "p msg w = (e, w1)" by (cases "p msg w")
  show ?case
  proof (cases e)
    case (Some err)
    with Cons.prems p have "r = Some err" "log' = log @ [(n, msg, Some err)]" "w' = w1"
      by (auto simp: spy_call)
    then show ?thesis using p Some
      by (intro exI [of _ "[(n, msg, Some err)]"]) simp
  next
    case None
    with Cons.prems p
    have "MultiPublisher_range (spies_from (Suc n) ps) msg (log @ [(n, msg, None)], w1) = (r, (log', w'))"
      by (simp add: spy_call)
    from Cons.IH [OF this] obtain new where new:
      "log' = (log @ [(n, msg, None)]) @ new" "length new \<le> length ps"
      "map fst new = [Suc n..<Suc n + length new]"
      "\<forall>c\<in>set new. fst (snd c) = msg"
      "\<forall>c\<in>set (butlast new). snd (snd c) = None"
      "r = None \<longrightarrow> length new = length ps \<and> (\<forall>c\<in>set new. snd (snd c) = None)"
      "\<forall>e. r = Some e \<longrightarrow> new \<noteq> [] \<and> snd (snd (last new)) = Some e"
      "MultiPublisher_range ps msg w1 = (r, w')"
      by blast
    let ?new = "(n, msg, None) # new"
    have 1: "log' = log @ ?new" using new(1) by simp
    have 2: "length ?new \<le> length (p # ps)" using new(2) by simp
    have 3: "map fst ?new = [n..<n + length ?new]"
    proof -
      have a: "map fst ?new = n # [Suc n..<Suc n + length new]" using new(3) by simp
      have "n < n + length ?new" by simp
      from upt_conv_Cons [OF this]
      have b: "[n..<n + length ?new] = n # [Suc n..<n + length ?new]" .
      have c: "n + length ?new = Suc n + length new" by simp
      from b c have "[n..<n + length ?new] = n # [Suc n..<Suc n + length new]"
        by (simp only:)
      with a show ?thesis by (simp only:)
    qed
    have 4: "\<forall>c\<in>set ?new. fst (snd c) = msg" using new(4) by simp
    have 5: "\<forall>c\<in>set (butlast ?new). snd (snd c) = None" using new(5) by simp
    have 6: "r = None \<longrightarrow> length ?new = length (p # ps) \<and> (\<forall>c\<in>set ?new. snd (snd c) = None)"
      using new(6) by simp
    have 7: "\<forall>e. r = Some e \<longrightarrow> ?new \<noteq> [] \<and> snd (snd (last ?new)) = Some e"
      using new(7) by simp
    have 8: "MultiPublisher_range (p # ps) msg w = (r, w')" using new(8) p None by simp
    show ?thesis using 1 2 3 4 5 6 7 8 by blast
  qed
qed

text \<open>
  C3. For every sequence \<open>ps\<close> of inner publishers and every message, the calls a
  \<open>MultiPublisher\<close> makes are those of \<open>ps\<close> in sequence order from the first, each
  with the message (\<open>calls\<close> holds position, message and result of each call). Every
  call before the last one made returned \<open>nil\<close>. If the result is an error, it is the
  error of the last call made, so no publisher after the first failing one is called;
  if the result is \<open>nil\<close>, every publisher was called and returned \<open>nil\<close>.
\<close>

theorem MultiPublisher_first_error:
  assumes "Publish (MultiPublisher (spies_from 0 ps)) msg ([], w) = (r, (calls, w'))"
  shows "map fst calls = [0..<length calls] \<and> length calls \<le> length ps
     \<and> (\<forall>c\<in>set calls. fst (snd c) = msg)
     \<and> (\<forall>c\<in>set (butlast calls). snd (snd c) = None)
     \<and> (r = None \<longrightarrow> length calls = length ps \<and> (\<forall>c\<in>set calls. snd (snd c) = None))
     \<and> (\<forall>e. r = Some e \<longrightarrow> calls \<noteq> [] \<and> snd (snd (last calls)) = Some e)
     \<and> Publish (MultiPublisher ps) msg w = (r, w')"
proof -
  from assms have "MultiPublisher_range (spies_from 0 ps) msg ([], w) = (r, (calls, w'))"
    by (simp add: MultiPublisher_def Publish_mock)
  from MultiPublisher_range_spied [OF this] show ?thesis
    by (simp add: MultiPublisher_def Publish_mock)
qed

theorem MultiPublisher_first_error_witness:
  "Publish (MultiPublisher (spies_from 0 [Publish mp, Publish errp, Publish mp])) ''test'' ([], ()) =
     (Some ''failed to send msg: test'', ([(0, ''test'', None), (1, ''test'', Some ''failed to send msg: test'')], ()))
   \<and> Publish (MultiPublisher [Publish mp, Publish errp, Publish mp]) ''test'' () =
     (Some ''failed to send msg: test'', ())"
  using MultiPublisher_first_error [of "[Publish mp, Publish errp, Publish mp]" "''test''" "()"
      "Some ''failed to send msg: test''"
      "[(0, ''test'', None), (1, ''test'', Some ''failed to send msg: test'')]" "()"]
  by (simp add: MultiPublisher_def Publish_mock mp_def errp_def spy_call)

section \<open>BatchPublisher\<close>

text \<open>
  One call of the closure: it forwards exactly when the appended buffer has
  \<open>batchSize\<close> elements, and keeps the appended buffer in both cases.
\<close>

lemma Batch_absorb:
  "int (length msgs) + 1 \<noteq> N \<Longrightarrow>
   BatchPublisher_PublishFn p N msg (msgs, w) = (None, (msgs @ [msg], w))"
  by (simp add: BatchPublisher_PublishFn_def)

lemma Batch_flush:
  "int (length msgs) + 1 = N \<Longrightarrow>
   BatchPublisher_PublishFn p N msg (msgs, w) =
     (fst (p (Join (msgs @ [msg]) '','') w), (msgs @ [msg], snd (p (Join (msgs @ [msg]) '','') w)))"
  by (simp add: BatchPublisher_PublishFn_def Let_def split: prod.splits)

lemma Batch_below:
  "int (length msgs + length ys) < N \<Longrightarrow>
   Publish_each (BatchPublisher_PublishFn p N) ys (msgs, w) =
     (replicate (length ys) None, (msgs @ ys, w))"
proof (induction ys arbitrary: msgs)
  case Nil
  then show ?case by simp
next
  case (Cons y ys)
  have "int (length msgs) + 1 \<noteq> N" using Cons.prems by simp
  then have step: "BatchPublisher_PublishFn p N y (msgs, w) = (None, (msgs @ [y], w))"
    by (rule Batch_absorb)
  have "int (length (msgs @ [y]) + length ys) < N" using Cons.prems by simp
  then show ?case using Cons.IH [of "msgs @ [y]"] step by simp
qed

lemma Batch_above:
  "N \<le> int (length msgs) \<Longrightarrow>
   Publish_each (BatchPublisher_PublishFn p N) ys (msgs, w) =
     (replicate (length ys) None, (msgs @ ys, w))"
proof (induction ys arbitrary: msgs)
  case Nil
  then show ?case by simp
next
  case (Cons y ys)
  have "int (length msgs) + 1 \<noteq> N" using Cons.prems by simp
  then have step: "BatchPublisher_PublishFn p N y (msgs, w) = (None, (msgs @ [y], w))"
    by (rule Batch_absorb)
  have "N \<le> int (length (msgs @ [y]))" using Cons.prems by simp
  then show ?case using Cons.IH [of "msgs @ [y]"] step by simp
qed

lemma Publish_BatchPublisher:
  "BatchPublisher p N w = (bp, s0) \<Longrightarrow> Publish bp = BatchPublisher_PublishFn p N \<and> s0 = ([], w)"
  by (auto simp: BatchPublisher_def Publish_def)

text \<open>
  The first \<open>N\<close> calls on an empty buffer, as one run.
\<close>

lemma Batch_first_run:
  assumes "xs \<noteq> []" and "int (length xs) = N"
  shows "Publish_each (BatchPublisher_PublishFn p N) xs ([], w) =
           (replicate (length xs - 1) None @ [fst (p (Join xs '','') w)],
            (xs, snd (p (Join xs '','') w)))"
proof -
  have xs: "xs = butlast xs @ [last xs]" using assms(1) by simp
  have "int (length ([]::string list) + length (butlast xs)) < N"
    using assms by (cases xs rule: rev_cases) auto
  from Batch_below [OF this, of p w]
  have below: "Publish_each (BatchPublisher_PublishFn p N) (butlast xs) ([], w) =
      (replicate (length xs - 1) None, (butlast xs, w))"
    by simp
  have "int (length (butlast xs)) + 1 = N" using assms by (cases xs rule: rev_cases) auto
  from Batch_flush [OF this, of p "last xs" w] xs
  have flush: "BatchPublisher_PublishFn p N (last xs) (butlast xs, w) =
      (fst (p (Join xs '','') w), (xs, snd (p (Join xs '','') w)))"
    by simp
  have "Publish_each (BatchPublisher_PublishFn p N) (butlast xs @ [last xs]) ([], w) =
           (replicate (length xs - 1) None @ [fst (p (Join xs '','') w)],
            (xs, snd (p (Join xs '','') w)))"
    by (simp only: Publish_each_append below flush Publish_each.simps prod.case append_Nil2) 
  then show ?thesis using xs by simp
qed

lemma Batch_lifetime:
  assumes "1 \<le> N"
  shows "\<exists>new. fst (snd (snd (Publish_each (BatchPublisher_PublishFn (spy 0 p) N) zs ([], (log, w)))))
            = log @ new \<and> length new \<le> 1"
proof (cases "int (length zs) < N")
  case True
  then have "int (length ([]::string list) + length zs) < N" by simp
  from Batch_below [OF this, of "spy 0 p" "(log, w)"] show ?thesis by simp
next
  case False
  define xs where "xs = take (nat N) zs"
  define ys where "ys = drop (nat N) zs"
  have zs: "zs = xs @ ys" by (simp add: xs_def ys_def)
  have len: "int (length xs) = N" using False assms by (simp add: xs_def)
  have ne: "xs \<noteq> []" using len assms by auto
  have above: "N \<le> int (length xs)" using len by simp
  have run: "Publish_each (BatchPublisher_PublishFn (spy 0 p) N) xs ([], (log, w)) =
      (replicate (length xs - 1) None @ [fst (p (Join xs '','') w)],
       (xs, (log @ [(0, Join xs '','', fst (p (Join xs '','') w))], snd (p (Join xs '','') w))))"
    unfolding Batch_first_run [OF ne len] by (simp add: spy_call)
  show ?thesis
    unfolding zs Publish_each_append run prod.case Batch_above [OF above]
    by simp
qed

text \<open>
  C5. For a freshly constructed \<open>BatchPublisher\<close> with threshold \<open>N\<close> over a
  recording inner publisher, and \<open>N\<close> inputs \<open>xs\<close> (\<open>N \<ge> 1\<close>): the first \<open>N - 1\<close>
  calls each return \<open>nil\<close> and leave the log and the inner world untouched; the
  \<open>N\<close>-th call adds exactly one inner call, with the inputs joined by a comma in call
  order, and returns the result \<open>r\<close> of that inner call.
\<close>

theorem BatchPublisher_first_batch:
  assumes "xs \<noteq> []" and "int (length xs) = N"
    and "BatchPublisher (spy 0 p) N (log, w) = (bp, s0)"
    and "p (Join xs '','') w = (r, w')"
  shows "Publish_each (Publish bp) (butlast xs) s0 =
           (replicate (length xs - 1) None, (butlast xs, (log, w)))
         \<and> Publish bp (last xs) (butlast xs, (log, w)) =
           (r, (xs, (log @ [(0, Join xs '','', r)], w')))"
proof -
  have bp: "Publish bp = BatchPublisher_PublishFn (spy 0 p) N" and s0: "s0 = ([], (log, w))"
    using Publish_BatchPublisher [OF assms(3)] by simp_all
  have xs: "butlast xs @ [last xs] = xs" using assms(1) by simp
  have "int (length ([]::string list) + length (butlast xs)) < N"
    using assms(1,2) by (cases xs rule: rev_cases) auto
  from Batch_below [OF this, of "spy 0 p" "(log, w)"]
  have below: "Publish_each (Publish bp) (butlast xs) s0 =
      (replicate (length xs - 1) None, (butlast xs, (log, w)))"
    unfolding bp s0 by simp
  have "int (length (butlast xs)) + 1 = N" using assms(1,2) by (cases xs rule: rev_cases) auto
  from Batch_flush [OF this, of "spy 0 p" "last xs" "(log, w)"]
  have flush: "Publish bp (last xs) (butlast xs, (log, w)) =
      (r, (xs, (log @ [(0, Join xs '','', r)], w')))"
    unfolding bp by (simp add: xs spy_call assms(4))
  show ?thesis using below flush by simp
qed

theorem BatchPublisher_first_batch_witness:
  "Publish_each (Publish (fst (BatchPublisher (spy 0 (Publish mp)) 3 ([], ())))) [''a'', ''b''] ([], ([], ())) =
           ([None, None], ([''a'', ''b''], ([], ())))
   \<and> Publish (fst (BatchPublisher (spy 0 (Publish mp)) 3 ([], ()))) ''c'' ([''a'', ''b''], ([], ())) =
           (None, ([''a'', ''b'', ''c''], ([(0, ''a,b,c'', None)], ())))"
  using BatchPublisher_first_batch [of "[''a'', ''b'', ''c'']" 3 "Publish mp" "[]" "()"
      "fst (BatchPublisher (spy 0 (Publish mp)) 3 ([], ()))" "([], ([], ()))" None "()"]
  by (simp add: BatchPublisher_def Publish_def mp_def)

text \<open>
  C9. For a threshold \<open>N \<ge> 1\<close>: after the \<open>N\<close> calls \<open>xs\<close> that fill the buffer for the
  first time (one inner call has been made, the buffer still holds \<open>xs\<close>), any further
  calls \<open>ys\<close> each return \<open>nil\<close>, append to the buffer, and leave the log and the inner
  world as they were; and whatever calls \<open>zs\<close> the decorator receives in its lifetime,
  the inner publisher is called at most once.
\<close>

theorem BatchPublisher_publishes_once:
  assumes "1 \<le> N" and "int (length xs) = N"
    and "BatchPublisher (spy 0 p) N (log, w) = (bp, s0)"
    and "Publish_each (Publish bp) xs s0 = (errs, s1)"
  shows "s1 = (xs, (log @ [(0, Join xs '','', fst (p (Join xs '','') w))], snd (p (Join xs '','') w)))
         \<and> Publish_each (Publish bp) ys s1 = (replicate (length ys) None, (xs @ ys, snd s1))
         \<and> (\<exists>new. fst (snd (snd (Publish_each (Publish bp) zs s0))) = log @ new \<and> length new \<le> 1)"
proof -
  have bp: "Publish bp = BatchPublisher_PublishFn (spy 0 p) N" and s0: "s0 = ([], (log, w))"
    using Publish_BatchPublisher [OF assms(3)] by simp_all
  have ne: "xs \<noteq> []" using assms(1,2) by auto
  have s1: "s1 = (xs, (log @ [(0, Join xs '','', fst (p (Join xs '','') w))], snd (p (Join xs '','') w)))"
    using assms(4) unfolding bp s0 Batch_first_run [OF ne assms(2)] by (simp add: spy_call)
  have "N \<le> int (length xs)" using assms(2) by simp
  from Batch_above [OF this, of "spy 0 p" ys "snd s1"]
  have after: "Publish_each (Publish bp) ys s1 = (replicate (length ys) None, (xs @ ys, snd s1))"
    unfolding bp by (simp add: s1)
  have life: "\<exists>new. fst (snd (snd (Publish_each (Publish bp) zs s0))) = log @ new \<and> length new \<le> 1"
    unfolding bp s0 by (rule Batch_lifetime [OF assms(1)])
  show ?thesis using s1 after life by blast
qed

theorem BatchPublisher_publishes_once_witness:
  "Publish_each (Publish (fst (BatchPublisher (spy 0 (Publish mp)) 2 ([], ()))))
       [''c'', ''d'', ''e''] ([''a'', ''b''], ([(0, ''a,b'', None)], ())) =
     ([None, None, None], ([''a'', ''b'', ''c'', ''d'', ''e''], ([(0, ''a,b'', None)], ())))"
  using BatchPublisher_publishes_once [of 2 "[''a'', ''b'']" "Publish mp" "[]" "()"
      "fst (BatchPublisher (spy 0 (Publish mp)) 2 ([], ()))" "([], ([], ()))"
      "[None, None]" "([''a'', ''b''], ([(0, ''a,b'', None)], ()))" "[''c'', ''d'', ''e'']"]
  by (simp add: BatchPublisher_def Publish_def mp_def BatchPublisher_PublishFn_def spy_def)

text \<open>
  C1. The buffer is not cleared when the aggregate is forwarded. With threshold 2 and
  the messages \<open>a\<close>, \<open>b\<close>, \<open>c\<close>: the second call forwards \<open>a,b\<close>, and after the
  third call the buffer holds all three messages, more than the threshold; \<open>c\<close> is
  not forwarded.
\<close>

theorem BatchPublisher_buffer_not_cleared:
  "Publish_each (Publish (fst (BatchPublisher (spy 0 (Publish mp)) 2 ([], ()))))
       [''a'', ''b'', ''c''] (snd (BatchPublisher (spy 0 (Publish mp)) 2 ([], ()))) =
     ([None, None, None], ([''a'', ''b'', ''c''], ([(0, ''a,b'', None)], ())))"
  by (simp add: BatchPublisher_def Publish_def mp_def BatchPublisher_PublishFn_def spy_def)

section \<open>RetryHTTPClient\<close>

text \<open>
  C8. With a retry count of 0, \<open>Do\<close> returns a nil response and a nil error and leaves
  the world as it was, for every inner client and request; a recording inner client
  logs no attempt.
\<close>

theorem RetryHTTPClient_zero_retries:
  "Do (RetryHTTPClient c 0) req w = ((None, None), w)
   \<and> Do (RetryHTTPClient (spyDo c) 0) req (log, w) = ((None, None), (log, w))"
  by (simp add: Do_def RetryHTTPClient_def RetryHTTPClient_for.simps)

text \<open>
  The loop over a recording client, from any \<open>i\<close> and any log: it adds at most
  \<open>retries - i\<close> attempts, all with the request; every attempt but the last failed;
  a last attempt without error gives the result, and a failed last attempt is the
  \<open>retries\<close>-th one and gives the error. With no attempt the loop returns the error
  it was entered with.
\<close>

lemma RetryHTTPClient_for_spied:
  "RetryHTTPClient_for (spyDo c) R req i res0 err0 (log, w) = ((res, err), (log', w')) \<Longrightarrow>
   \<exists>new. log' = log @ new \<and> int (length new) \<le> max 0 (R - i)
     \<and> (\<forall>a\<in>set new. fst a = req)
     \<and> (\<forall>a\<in>set (butlast new). snd (snd a) \<noteq> None)
     \<and> (new = [] \<longrightarrow> R \<le> i \<and> res = None \<and> err = err0)
     \<and> (new \<noteq> [] \<longrightarrow>
          (snd (snd (last new)) = None \<longrightarrow> res = fst (snd (last new)) \<and> err = None)
        \<and> (snd (snd (last new)) \<noteq> None \<longrightarrow>
             int (length new) = R - i \<and> res = None \<and> err = snd (snd (last new))))
     \<and> RetryHTTPClient_for c R req i res0 err0 w = ((res, err), w')"
proof (induction "nat (R - i)" arbitrary: i res0 err0 log w)
  case 0
  then have "\<not> i < R" by simp
  with "0.prems" have "res = None" "err = err0" "log' = log" "w' = w"
    by (auto simp: RetryHTTPClient_for.simps [of _ _ _ i])
  then show ?case using \<open>\<not> i < R\<close>
    by (intro exI [of _ "[]"]) (simp add: RetryHTTPClient_for.simps [of _ _ _ i])
next
  case (Suc k)
  then have lt: "i < R" by simp
  obtain res1 err1 w1 where c: "c req w = ((res1, err1), w1)"
    by (metis surj_pair)
  show ?case
  proof (cases err1)
    case None
    with Suc.prems lt c have "res = res1" "err = None" "log' = log @ [(req, res1, None)]" "w' = w1"
      by (auto simp: RetryHTTPClient_for.simps [of _ _ _ i] spyDo_call)
    then show ?thesis using lt c None
      by (intro exI [of _ "[(req, res1, None)]"]) (simp add: RetryHTTPClient_for.simps [of _ _ _ i])
  next
    case (Some e1)
    with Suc.prems lt c
    have rec: "RetryHTTPClient_for (spyDo c) R req (i + 1) res1 (Some e1) (log @ [(req, res1, Some e1)], w1)
             = ((res, err), (log', w'))"
      by (simp add: RetryHTTPClient_for.simps [of _ _ _ i] spyDo_call)
    have k: "k = nat (R - (i + 1))" using Suc.hyps(2) by simp
    from Suc.hyps(1) [OF k rec] obtain new where new:
      "log' = (log @ [(req, res1, Some e1)]) @ new"
      "int (length new) \<le> max 0 (R - (i + 1))"
      "\<forall>a\<in>set new. fst a = req"
      "\<forall>a\<in>set (butlast new). snd (snd a) \<noteq> None"
      "new = [] \<longrightarrow> R \<le> i + 1 \<and> res = None \<and> err = Some e1"
      "new \<noteq> [] \<longrightarrow>
          (snd (snd (last new)) = None \<longrightarrow> res = fst (snd (last new)) \<and> err = None)
        \<and> (snd (snd (last new)) \<noteq> None \<longrightarrow>
             int (length new) = R - (i + 1) \<and> res = None \<and> err = snd (snd (last new)))"
      "RetryHTTPClient_for c R req (i + 1) res1 (Some e1) w1 = ((res, err), w')"
      by (elim exE conjE) (rule that; assumption)
    let ?new = "(req, res1, Some e1) # new"
    have 1: "log' = log @ ?new" using new(1) by simp
    have 2: "int (length ?new) \<le> max 0 (R - i)" using new(2) lt by simp
    have 3: "\<forall>a\<in>set ?new. fst a = req" using new(3) by simp
    have 4: "\<forall>a\<in>set (butlast ?new). snd (snd a) \<noteq> None" using new(4) by simp
    have 5: "?new = [] \<longrightarrow> R \<le> i \<and> res = None \<and> err = err0" by simp
    have 6: "?new \<noteq> [] \<longrightarrow>
          (snd (snd (last ?new)) = None \<longrightarrow> res = fst (snd (last ?new)) \<and> err = None)
        \<and> (snd (snd (last ?new)) \<noteq> None \<longrightarrow>
             int (length ?new) = R - i \<and> res = None \<and> err = snd (snd (last ?new)))"
      using new(5,6) lt by (cases "new = []") auto
    have 7: "RetryHTTPClient_for c R req i res0 err0 w = ((res, err), w')"
      using new(7) lt c Some by (simp add: RetryHTTPClient_for.simps [of _ _ _ i])
    show ?thesis by (intro exI [of _ ?new] conjI 1 2 3 4 5 6 7)
  qed
qed

lemma flaky_twice_then_success:
  "Do (RetryHTTPClient (spyDo (flaky 2)) 3) ''url'' ([], 0) =
     ((Some ''response to url'', None),
      ([(''url'', None, Some ''attempt failed!''), (''url'', None, Some ''attempt failed!!''),
        (''url'', Some ''response to url'', None)], 3))"
  by code_simp

lemma flaky_always_fails:
  "Do (RetryHTTPClient (spyDo (flaky 5)) 2) ''url'' ([], 0) =
     ((None, Some ''attempt failed!!''),
      ([(''url'', None, Some ''attempt failed!''), (''url'', None, Some ''attempt failed!!'')], 2))"
  by code_simp

text \<open>
  C4. For a positive retry count \<open>R\<close>, the attempts \<open>Do\<close> makes on the inner client
  (\<open>attempts\<close> holds request, response and error of each): at least one and at most
  \<open>R\<close>, each with the request given; every attempt but the last failed. If the last
  attempt succeeded, its response is returned with a nil error (nothing is attempted
  after the first success). If it failed, it is the \<open>R\<close>-th attempt, and a nil
  response is returned with its error.
\<close>

theorem RetryHTTPClient_attempts:
  assumes "0 < R"
    and "Do (RetryHTTPClient (spyDo c) R) req ([], w) = ((res, err), (attempts, w'))"
  shows "attempts \<noteq> [] \<and> int (length attempts) \<le> R
     \<and> (\<forall>a\<in>set attempts. fst a = req)
     \<and> (\<forall>a\<in>set (butlast attempts). snd (snd a) \<noteq> None)
     \<and> (snd (snd (last attempts)) = None \<longrightarrow> res = fst (snd (last attempts)) \<and> err = None)
     \<and> (snd (snd (last attempts)) \<noteq> None \<longrightarrow>
          int (length attempts) = R \<and> res = None \<and> err = snd (snd (last attempts)))
     \<and> Do (RetryHTTPClient c R) req w = ((res, err), w')"
proof -
  from assms(2)
  have "RetryHTTPClient_for (spyDo c) R req 0 None None ([], w) = ((res, err), (attempts, w'))"
    by (simp add: RetryHTTPClient_def Do_mock)
  from RetryHTTPClient_for_spied [OF this] assms(1) show ?thesis
    by (auto simp: RetryHTTPClient_def Do_mock)
qed

theorem RetryHTTPClient_attempts_witness:
  "Do (RetryHTTPClient (flaky 2) 3) ''url'' 0 = ((Some ''response to url'', None), 3)
   \<and> Do (RetryHTTPClient (flaky 5) 2) ''url'' 0 = ((None, Some ''attempt failed!!''), 2)"
proof -
  have three: "(0::int) < 3" and two: "(0::int) < 2" by simp_all
  from RetryHTTPClient_attempts [OF three flaky_twice_then_success]
  have a: "Do (RetryHTTPClient (flaky 2) 3) ''url'' 0 = ((Some ''response to url'', None), 3)"
    by simp
  from RetryHTTPClient_attempts [OF two flaky_always_fails]
  have b: "Do (RetryHTTPClient (flaky 5) 2) ''url'' 0 = ((None, Some ''attempt failed!!''), 2)"
    by simp
  show ?thesis using a b by simp
qed

section \<open>Construction with a zero configuration value\<close>

text \<open>
  C2, as the code has it. \<open>RetryHTTPClient\<close> and \<open>BatchPublisher\<close> return their
  decorator for every configuration value (neither has an error result, and neither
  inspects the value). With zero retries \<open>Do\<close> returns a nil response and a nil error
  without an attempt on the inner client; with a batch size of zero every
  \<open>Publish\<close> call appends to the buffer and returns \<open>nil\<close> without a call of the
  inner publisher.
\<close>

theorem zero_configuration_accepted:
  "Do (RetryHTTPClient (spyDo c) 0) req (log, w) = ((None, None), (log, w))
   \<and> Publish_each (Publish (fst (BatchPublisher (spy 0 p) 0 (log', v)))) ys
         (snd (BatchPublisher (spy 0 p) 0 (log', v))) =
       (replicate (length ys) None, (ys, (log', v)))"
proof -
  have "(0::int) \<le> int (length ([]::string list))" by simp
  from Batch_above [OF this, of "spy 0 p" ys "(log', v)"]
  have "Publish_each (BatchPublisher_PublishFn (spy 0 p) 0) ys ([], (log', v)) =
       (replicate (length ys) None, (ys, (log', v)))" by simp
  then show ?thesis
    by (simp add: Do_def RetryHTTPClient_def RetryHTTPClient_for.simps BatchPublisher_def Publish_mock)
qed

text \<open>
  C2 as stated fails: built with the value 0, both decorators exist and answer calls.
\<close>

theorem zero_configuration_counterexample:
  "Do (RetryHTTPClient (spyDo (flaky 0)) 0) ''http://www.google.com'' ([], 0) = ((None, None), ([], 0))
   \<and> Publish (fst (BatchPublisher (spy 0 (Publish mp)) 0 ([], ()))) ''a''
         (snd (BatchPublisher (spy 0 (Publish mp)) 0 ([], ()))) = (None, ([''a''], ([], ())))"
  by (simp add: Do_def RetryHTTPClient_def RetryHTTPClient_for.simps BatchPublisher_def Publish_def
      BatchPublisher_PublishFn_def)

end
